theory Spec2Isabelle
  imports Main "HOL-Library.Sublist"
begin

section \<open>Data model\<close>

text \<open>
  The store keeps two JSON files under one directory. Every record is a dictionary with
  a fixed set of string keys, so each becomes a record type; the field names carry a
  prefix because three dictionaries share the keys \<^verbatim>\<open>user_id\<close>, \<^verbatim>\<open>memory\<close>
  and \<^verbatim>\<open>timestamp\<close>. Strings are sequences of code points below 256.

  The argument \<^verbatim>\<open>messages\<close> of \<^verbatim>\<open>add_conversation\<close> is never inspected: it is put
  into the dictionary and written by \<^verbatim>\<open>json.dump\<close> as it is. It is therefore any value
  that \<^verbatim>\<open>json.dump\<close> accepts and \<^verbatim>\<open>json.load\<close> gives back unchanged: \<^verbatim>\<open>None\<close>, a
  truth value, an integer, a string, a list of such values, or a dictionary from strings
  to such values (floating-point numbers are left out).
\<close>

datatype json =
  JNull
  | JBool bool
  | JInt int
  | JString string
  | JArray "json list"
  | JObject "(string \<times> json) list"

definition message :: "string \<Rightarrow> string \<Rightarrow> json" where
  \<comment> \<open>the dictionary with the keys \<^verbatim>\<open>role\<close> and \<^verbatim>\<open>content\<close> that the callers put into the list\<close>
  "message role content = JObject [(''role'', JString role), (''content'', JString content)]"

record conversation_record =
  conv_user_id :: string
  conv_timestamp :: string
  conv_messages :: json

record memory_record =
  mem_user_id :: string
  mem_memory :: string
  mem_timestamp :: string

text \<open>The dictionaries built by \<^verbatim>\<open>search_relevant_memories\<close>.\<close>

record scored_memory =
  sm_memory :: string
  sm_score :: nat
  sm_timestamp :: string

text \<open>
  The storage location: whether the directory exists, and for each of
  \<^verbatim>\<open>memories.json\<close> and \<^verbatim>\<open>conversations.json\<close> either \<open>None\<close> (no such file) or the
  list the file holds. A file is always a well-formed JSON list of such records, as every
  write of this program leaves it; a file with other content, and a failure of the disk,
  are outside this model.
\<close>

record storage =
  dir_exists :: bool
  memory_file :: "memory_record list option"
  conversations_file :: "conversation_record list option"

datatype py_error = FileNotFoundError

section \<open>Construction of the store (predined\_memory.py, lines 17--36)\<close>

definition makedirs :: "storage \<Rightarrow> storage" where
  \<comment> \<open>\<^verbatim>\<open>os.makedirs(storage_path, exist_ok=True)\<close>\<close>
  "makedirs s = s\<lparr>dir_exists := True\<rparr>"

definition init_storage :: "storage \<Rightarrow> storage" where
  \<comment> \<open>\<^verbatim>\<open>_init_storage\<close>: two tests of \<^verbatim>\<open>os.path.exists\<close>, each followed by a dump of \<^verbatim>\<open>[]\<close>\<close>
  "init_storage s =
     (let s1 = (if memory_file s = None then s\<lparr>memory_file := Some []\<rparr> else s)
      in if conversations_file s1 = None then s1\<lparr>conversations_file := Some []\<rparr> else s1)"

definition SimpleMemory_init :: "storage \<Rightarrow> storage" where
  \<comment> \<open>\<^verbatim>\<open>__init__\<close>: create the directory, then initialise the files\<close>
  "SimpleMemory_init s = init_storage (makedirs s)"

section \<open>Appending and listing (predined\_memory.py, lines 38--104)\<close>

text \<open>
  The argument \<open>now\<close> is the reading of the clock, \<^verbatim>\<open>datetime.now().isoformat()\<close>, used
  when the caller passes no timestamp. Opening an absent file for reading raises
  \<^verbatim>\<open>FileNotFoundError\<close>. The result of an append is the returned id and the new storage.
\<close>

definition add_conversation ::
  "json \<Rightarrow> string \<Rightarrow> string option \<Rightarrow> string \<Rightarrow> storage
     \<Rightarrow> py_error + (nat \<times> storage)" where
  "add_conversation messages user_id timestamp now s =
     (let timestamp' = (case timestamp of None \<Rightarrow> now | Some t \<Rightarrow> t);
          conversation = \<lparr>conv_user_id = user_id, conv_timestamp = timestamp',
                          conv_messages = messages\<rparr>
      in case conversations_file s of
           None \<Rightarrow> Inl FileNotFoundError
         | Some conversations \<Rightarrow>
             (let conversations' = conversations @ [conversation]
              in Inr (length conversations' - 1,
                      s\<lparr>conversations_file := Some conversations'\<rparr>)))"

definition add_memory ::
  "string \<Rightarrow> string \<Rightarrow> string option \<Rightarrow> string \<Rightarrow> storage
     \<Rightarrow> py_error + (nat \<times> storage)" where
  "add_memory memory_text user_id timestamp now s =
     (let timestamp' = (case timestamp of None \<Rightarrow> now | Some t \<Rightarrow> t);
          memory = \<lparr>mem_user_id = user_id, mem_memory = memory_text,
                    mem_timestamp = timestamp'\<rparr>
      in case memory_file s of
           None \<Rightarrow> Inl FileNotFoundError
         | Some memories \<Rightarrow>
             (let memories' = memories @ [memory]
              in Inr (length memories' - 1, s\<lparr>memory_file := Some memories'\<rparr>)))"

text \<open>
  Python's slice \<^verbatim>\<open>xs[start:]\<close>: a negative start counts from the end, and both ends
  are clamped to the list.
\<close>

definition slice_from :: "'a list \<Rightarrow> int \<Rightarrow> 'a list" where
  "slice_from xs start =
     (if start < 0 then drop (nat (int (length xs) + start)) xs else drop (nat start) xs)"

text \<open>Python's slice \<^verbatim>\<open>xs[:stop]\<close>, with the same treatment of a negative bound.\<close>

definition slice_to :: "'a list \<Rightarrow> int \<Rightarrow> 'a list" where
  "slice_to xs stop =
     (if stop < 0 then take (nat (int (length xs) + stop)) xs else take (nat stop) xs)"

definition get_conversations ::
  "string \<Rightarrow> int \<Rightarrow> storage \<Rightarrow> py_error + conversation_record list" where
  "get_conversations user_id limit s =
     (case conversations_file s of
        None \<Rightarrow> Inl FileNotFoundError
      | Some conversations \<Rightarrow>
          (let user_conversations = filter (\<lambda>conv. conv_user_id conv = user_id) conversations
           in Inr (if user_conversations \<noteq> [] then slice_from user_conversations (- limit)
                   else [])))"

definition get_memories :: "string \<Rightarrow> storage \<Rightarrow> py_error + memory_record list" where
  "get_memories user_id s =
     (case memory_file s of
        None \<Rightarrow> Inl FileNotFoundError
      | Some memories \<Rightarrow> Inr (filter (\<lambda>mem. mem_user_id mem = user_id) memories))"

section \<open>Searching memories (integrate\_memory.py, lines 45--66)\<close>

text \<open>
  \<^verbatim>\<open>str.isspace\<close> and \<^verbatim>\<open>str.lower\<close> on code points below 256: the white space is
  tab to carriage return, the four separators 28 to 31, the space, NEL and the
  no-break space; the letters with a lower-case partner are A to Z and the accented
  capitals 192 to 222 without the multiplication sign 215, each 32 below its partner.
\<close>

definition isspace :: "char \<Rightarrow> bool" where
  "isspace c =
     (let n = (of_char c :: nat)
      in (9 \<le> n \<and> n \<le> 13) \<or> (28 \<le> n \<and> n \<le> 32) \<or> n = 133 \<or> n = 160)"

definition lower_char :: "char \<Rightarrow> char" where
  "lower_char c =
     (let n = (of_char c :: nat)
      in if (65 \<le> n \<and> n \<le> 90) \<or> (192 \<le> n \<and> n \<le> 222 \<and> n \<noteq> 215)
         then char_of (n + 32) else c)"

definition str_lower :: "string \<Rightarrow> string" where
  "str_lower s = map lower_char s"

text \<open>
  \<^verbatim>\<open>str.split()\<close> with no argument: the maximal runs of characters that are not white
  space, in order; \<open>cur\<close> is the run being read.
\<close>

fun split_run :: "string \<Rightarrow> string \<Rightarrow> string list" where
  "split_run [] cur = (if cur = [] then [] else [cur])"
| "split_run (c # cs) cur =
     (if isspace c then (if cur = [] then split_run cs [] else cur # split_run cs [])
      else split_run cs (cur @ [c]))"

definition str_split :: "string \<Rightarrow> string list" where
  "str_split s = split_run s []"

text \<open>\<^verbatim>\<open>keyword in memory_text\<close> on strings: the keyword starts at some position of the text.\<close>

fun str_in :: "string \<Rightarrow> string \<Rightarrow> bool" where
  "str_in keyword [] = (keyword = [])"
| "str_in keyword (c # cs) = (prefix keyword (c # cs) \<or> str_in keyword cs)"

text \<open>
  \<^verbatim>\<open>list.sort(key=..., reverse=True)\<close>: the list is reversed, sorted by a stable
  ascending sort, and reversed again.
\<close>

definition sort_reverse :: "('a \<Rightarrow> 'k::linorder) \<Rightarrow> 'a list \<Rightarrow> 'a list" where
  "sort_reverse key xs = rev (sort_key key (rev xs))"

definition keyword_score :: "string list \<Rightarrow> string \<Rightarrow> nat" where
  \<comment> \<open>\<^verbatim>\<open>sum(1 for keyword in query_keywords if keyword in memory_text)\<close>\<close>
  "keyword_score query_keywords memory_text =
     length (filter (\<lambda>keyword. str_in keyword memory_text) query_keywords)"

text \<open>The loop over the user's memories; \<open>relevant_memories\<close> is the list being built.\<close>

fun relevant_loop ::
  "string list \<Rightarrow> memory_record list \<Rightarrow> scored_memory list \<Rightarrow> scored_memory list" where
  "relevant_loop query_keywords [] relevant_memories = relevant_memories"
| "relevant_loop query_keywords (memory # rest) relevant_memories =
     (let memory_text = str_lower (mem_memory memory);
          score = keyword_score query_keywords memory_text
      in relevant_loop query_keywords rest
           (if score > 0
            then relevant_memories @
                   [\<lparr>sm_memory = mem_memory memory, sm_score = score,
                     sm_timestamp = mem_timestamp memory\<rparr>]
            else relevant_memories))"

definition search_relevant_memories ::
  "string \<Rightarrow> string \<Rightarrow> int \<Rightarrow> storage \<Rightarrow> py_error + scored_memory list" where
  "search_relevant_memories query user_id limit s =
     (case get_memories user_id s of
        Inl e \<Rightarrow> Inl e
      | Inr memories \<Rightarrow>
          (let query_keywords = str_split (str_lower query);
               relevant_memories = relevant_loop query_keywords memories [];
               relevant_memories' = sort_reverse sm_score relevant_memories
           in Inr (slice_to relevant_memories' limit)))"

text \<open>
  The ranking in the words of the specification, for comparison with the code: the score
  of a memory text is the number of tokens of the lower-cased, split query (each
  occurrence of a repeated token counted) that occur as a substring of the lower-cased
  text; the survivors are the memories of non-zero score, in their stored order.
\<close>

definition spec_score :: "string \<Rightarrow> string \<Rightarrow> nat" where
  "spec_score query memory_text =
     length (filter (\<lambda>token. sublist token (str_lower memory_text))
               (str_split (str_lower query)))"

definition spec_survivors :: "string \<Rightarrow> memory_record list \<Rightarrow> scored_memory list" where
  "spec_survivors query mems =
     map (\<lambda>m. \<lparr>sm_memory = mem_memory m, sm_score = spec_score query (mem_memory m),
                sm_timestamp = mem_timestamp m\<rparr>)
       (filter (\<lambda>m. 0 < spec_score query (mem_memory m)) mems)"

section \<open>Generation and prompt (integrate\_memory.py, lines 68--97)\<close>

text \<open>
  What a call can raise: \<open>is_Exception\<close> tells whether the raised object is an instance
  of \<^verbatim>\<open>Exception\<close> (the clause \<^verbatim>\<open>except Exception\<close> catches exactly those; the
  others are the likes of \<^verbatim>\<open>KeyboardInterrupt\<close>), and \<open>exc_str\<close> is what \<^verbatim>\<open>str\<close>
  of the object gives: its text, or the exception that its \<^verbatim>\<open>__str__\<close> raises.
  The model object is the function \<^verbatim>\<open>generate_content\<close>; a response is what reading
  its property \<^verbatim>\<open>text\<close> gives, which can raise as well.
\<close>

datatype py_exception =
  PyException (is_Exception: bool) (exc_str: "py_exception + string")

type_synonym response = "py_exception + string"



text \<open>The decimal numeral of a number, as an f-string renders it.\<close>

fun str_nat :: "nat \<Rightarrow> string" where
  "str_nat n =
     (if n < 10 then [char_of (48 + n)] else str_nat (n div 10) @ [char_of (48 + n mod 10)])"

declare str_nat.simps [simp del]

text \<open>The loop \<^verbatim>\<open>for i, mem in enumerate(relevant_memories, 1)\<close>, appending to \<open>context\<close>.\<close>

fun context_loop :: "nat \<Rightarrow> scored_memory list \<Rightarrow> string \<Rightarrow> string" where
  "context_loop i [] context = context"
| "context_loop i (mem # rest) context =
     context_loop (Suc i) rest (context @ str_nat i @ ''. '' @ sm_memory mem @ ''\<newline>'')"

definition create_memory_enhanced_prompt :: "string \<Rightarrow> scored_memory list \<Rightarrow> string" where
  "create_memory_enhanced_prompt user_query relevant_memories =
     (if relevant_memories = [] then user_query
      else
        (let context = context_loop 1 relevant_memories
               ''Here's what you know about the user from previous conversations:\<newline>\<newline>''
         in ''Based on the following context about the user, please provide a personalized and relevant response:\<newline>\<newline>CONTEXT:\<newline>''
            @ context @ ''\<newline>\<newline>USER QUERY: '' @ user_query
            @ ''\<newline>\<newline>Please respond in a natural, conversational way that incorporates relevant details from the context to make your response more personal and helpful.''))"

text \<open>The fixed pieces of the prompt, named for the statements below.\<close>

definition prompt_intro :: string where
  "prompt_intro = ''Based on the following context about the user, please provide a personalized and relevant response:\<newline>\<newline>CONTEXT:\<newline>''"

definition context_heading :: string where
  "context_heading = ''Here's what you know about the user from previous conversations:\<newline>\<newline>''"

definition prompt_outro :: string where
  "prompt_outro = ''\<newline>\<newline>Please respond in a natural, conversational way that incorporates relevant details from the context to make your response more personal and helpful.''"

definition numbered_lines :: "scored_memory list \<Rightarrow> string" where
  \<comment> \<open>the memories, one to a line, numbered from 1 in the order of the list\<close>
  "numbered_lines mems =
     concat (map (\<lambda>(k, mem). str_nat k @ ''. '' @ sm_memory mem @ ''\<newline>'')
               (zip [1 ..< Suc (length mems)] mems))"

section \<open>Stores and inputs used in the examples\<close>




definition ranked2 :: "scored_memory list" where
  "ranked2 =
     [\<lparr>sm_memory = ''John works in AI'', sm_score = 3, sm_timestamp = ''t3''\<rparr>,
      \<lparr>sm_memory = ''John loves hiking'', sm_score = 1, sm_timestamp = ''t1''\<rparr>]"

definition empty_location :: storage where
  "empty_location = \<lparr>dir_exists = False, memory_file = None, conversations_file = None\<rparr>"

definition memories3 :: "memory_record list" where
  "memories3 =
     [\<lparr>mem_user_id = ''john'', mem_memory = ''John loves hiking'', mem_timestamp = ''t1''\<rparr>,
      \<lparr>mem_user_id = ''mary'', mem_memory = ''Mary plays chess'', mem_timestamp = ''t2''\<rparr>,
      \<lparr>mem_user_id = ''john'', mem_memory = ''John works in AI'', mem_timestamp = ''t3''\<rparr>,
      \<lparr>mem_user_id = ''john'', mem_memory = ''The weather is hot'', mem_timestamp = ''t4''\<rparr>]"

definition conversations1 :: "conversation_record list" where
  "conversations1 =
     [\<lparr>conv_user_id = ''mary'', conv_timestamp = ''t0'',
       conv_messages = JArray [message ''user'' ''Hello'']\<rparr>]"

definition store3 :: storage where
  "store3 = \<lparr>dir_exists = True, memory_file = Some memories3,
              conversations_file = Some conversations1\<rparr>"

section \<open>Properties of the store\<close>

lemma add_memory_Some:
  "memory_file s = Some ms \<Longrightarrow>
   add_memory memory_text user_id timestamp now s =
     Inr (length ms,
          s\<lparr>memory_file := Some (ms @ [\<lparr>mem_user_id = user_id, mem_memory = memory_text,
                mem_timestamp = (case timestamp of None \<Rightarrow> now | Some t \<Rightarrow> t)\<rparr>])\<rparr>)"
  by (simp add: add_memory_def)

lemma add_conversation_Some:
  "conversations_file s = Some cs \<Longrightarrow>
   add_conversation messages user_id timestamp now s =
     Inr (length cs,
          s\<lparr>conversations_file := Some (cs @ [\<lparr>conv_user_id = user_id,
                conv_timestamp = (case timestamp of None \<Rightarrow> now | Some t \<Rightarrow> t),
                conv_messages = messages\<rparr>])\<rparr>)"
  by (simp add: add_conversation_def)

text \<open>
  Claim C8. Each append returns the zero-based position of the new record in the whole
  collection: the returned id is the number of records, of all users, that the collection
  held before, the collection afterwards is one record longer and begins with the old
  one, and the record at the returned position is the one just appended. Nothing else of
  the storage changes.
\<close>

theorem append_returns_position:
  "(memory_file s = Some ms \<longrightarrow>
      (\<exists>ms'. add_memory memory_text user_id timestamp now s =
               Inr (length ms, s\<lparr>memory_file := Some ms'\<rparr>) \<and>
             length ms' = Suc (length ms) \<and> take (length ms) ms' = ms \<and>
             ms' ! length ms =
               \<lparr>mem_user_id = user_id, mem_memory = memory_text,
                mem_timestamp = (case timestamp of None \<Rightarrow> now | Some t \<Rightarrow> t)\<rparr>)) \<and>
   (conversations_file s = Some cs \<longrightarrow>
      (\<exists>cs'. add_conversation messages user_id timestamp now s =
               Inr (length cs, s\<lparr>conversations_file := Some cs'\<rparr>) \<and>
             length cs' = Suc (length cs) \<and> take (length cs) cs' = cs \<and>
             cs' ! length cs =
               \<lparr>conv_user_id = user_id,
                conv_timestamp = (case timestamp of None \<Rightarrow> now | Some t \<Rightarrow> t),
                conv_messages = messages\<rparr>))"
proof (intro conjI impI)
  let ?m = "\<lparr>mem_user_id = user_id, mem_memory = memory_text,
             mem_timestamp = (case timestamp of None \<Rightarrow> now | Some t \<Rightarrow> t)\<rparr>"
  assume "memory_file s = Some ms"
  then have "add_memory memory_text user_id timestamp now s =
      Inr (length ms, s\<lparr>memory_file := Some (ms @ [?m])\<rparr>)"
    by (rule add_memory_Some)
  moreover have "length (ms @ [?m]) = Suc (length ms)" "take (length ms) (ms @ [?m]) = ms"
    "(ms @ [?m]) ! length ms = ?m"
    by simp_all
  ultimately show "\<exists>ms'. add_memory memory_text user_id timestamp now s =
               Inr (length ms, s\<lparr>memory_file := Some ms'\<rparr>) \<and>
             length ms' = Suc (length ms) \<and> take (length ms) ms' = ms \<and>
             ms' ! length ms = ?m"
    by blast
next
  let ?c = "\<lparr>conv_user_id = user_id,
             conv_timestamp = (case timestamp of None \<Rightarrow> now | Some t \<Rightarrow> t),
             conv_messages = messages\<rparr>"
  assume "conversations_file s = Some cs"
  then have "add_conversation messages user_id timestamp now s =
      Inr (length cs, s\<lparr>conversations_file := Some (cs @ [?c])\<rparr>)"
    by (rule add_conversation_Some)
  moreover have "length (cs @ [?c]) = Suc (length cs)" "take (length cs) (cs @ [?c]) = cs"
    "(cs @ [?c]) ! length cs = ?c"
    by simp_all
  ultimately show "\<exists>cs'. add_conversation messages user_id timestamp now s =
               Inr (length cs, s\<lparr>conversations_file := Some cs'\<rparr>) \<and>
             length cs' = Suc (length cs) \<and> take (length cs) cs' = cs \<and>
             cs' ! length cs = ?c"
    by blast
qed

theorem append_returns_position_witness:
  "memory_file store3 = Some memories3 \<and> conversations_file store3 = Some conversations1 \<and>
   length memories3 = 4 \<and> length conversations1 = 1 \<and>
   (\<exists>ms'. add_memory ''John likes tea'' ''john'' None ''t5'' store3 =
            Inr (4, store3\<lparr>memory_file := Some ms'\<rparr>) \<and>
          length ms' = 5 \<and> take 4 ms' = memories3 \<and>
          ms' ! 4 = \<lparr>mem_user_id = ''john'', mem_memory = ''John likes tea'',
                     mem_timestamp = ''t5''\<rparr>) \<and>
   (\<exists>cs'. add_conversation (JArray []) ''john'' None ''t5'' store3 =
            Inr (1, store3\<lparr>conversations_file := Some cs'\<rparr>) \<and>
          length cs' = 2 \<and> take 1 cs' = conversations1 \<and>
          cs' ! 1 = \<lparr>conv_user_id = ''john'', conv_timestamp = ''t5'',
                     conv_messages = JArray []\<rparr>)"
proof -
  have m: "memory_file store3 = Some memories3"
    and c: "conversations_file store3 = Some conversations1"
    by (simp_all add: store3_def)
  have lm: "length memories3 = 4" and lc: "length conversations1 = 1"
    by (simp_all add: memories3_def conversations1_def)
  note t = append_returns_position [of store3 memories3 "''John likes tea''" "''john''" None
      "''t5''" conversations1 "JArray []"]
  from t m have "\<exists>ms'. add_memory ''John likes tea'' ''john'' None ''t5'' store3 =
            Inr (4, store3\<lparr>memory_file := Some ms'\<rparr>) \<and>
          length ms' = 5 \<and> take 4 ms' = memories3 \<and>
          ms' ! 4 = \<lparr>mem_user_id = ''john'', mem_memory = ''John likes tea'',
                     mem_timestamp = ''t5''\<rparr>"
    by (simp add: lm)
  moreover from t c have "\<exists>cs'. add_conversation (JArray []) ''john'' None ''t5'' store3 =
            Inr (1, store3\<lparr>conversations_file := Some cs'\<rparr>) \<and>
          length cs' = 2 \<and> take 1 cs' = conversations1 \<and>
          cs' ! 1 = \<lparr>conv_user_id = ''john'', conv_timestamp = ''t5'',
                     conv_messages = JArray []\<rparr>"
    by (simp add: lc numeral_2_eq_2)
  ultimately show ?thesis
    using m c lm lc by blast
qed

lemma init_storage_files:
  "memory_file (init_storage s) = (case memory_file s of None \<Rightarrow> Some [] | Some ms \<Rightarrow> Some ms)"
  "conversations_file (init_storage s) =
     (case conversations_file s of None \<Rightarrow> Some [] | Some cs \<Rightarrow> Some cs)"
  "dir_exists (init_storage s) = dir_exists s"
  by (simp_all add: init_storage_def Let_def split: option.splits)

lemma SimpleMemory_init_fields:
  "memory_file (SimpleMemory_init s) = (case memory_file s of None \<Rightarrow> Some [] | Some ms \<Rightarrow> Some ms)"
  "conversations_file (SimpleMemory_init s) =
     (case conversations_file s of None \<Rightarrow> Some [] | Some cs \<Rightarrow> Some cs)"
  "dir_exists (SimpleMemory_init s) = True"
  by (simp_all add: SimpleMemory_init_def init_storage_files makedirs_def)

lemma storage_eqI:
  "dir_exists s = dir_exists t \<Longrightarrow> memory_file s = memory_file t \<Longrightarrow>
   conversations_file s = conversations_file t \<Longrightarrow> (s :: storage) = t"
  by simp

text \<open>
  Claim C6. Constructing the store is idempotent: it creates each absent collection as
  the empty list, leaves the contents of a collection that is present as they are, and
  on a location with no collection a second construction gives the same state as the
  first, two empty collections.
\<close>

theorem initialize_idempotent:
  "SimpleMemory_init (SimpleMemory_init s) = SimpleMemory_init s \<and>
   (memory_file s = None \<longrightarrow> memory_file (SimpleMemory_init s) = Some []) \<and>
   (memory_file s = Some ms \<longrightarrow> memory_file (SimpleMemory_init s) = Some ms) \<and>
   (conversations_file s = None \<longrightarrow> conversations_file (SimpleMemory_init s) = Some []) \<and>
   (conversations_file s = Some cs \<longrightarrow> conversations_file (SimpleMemory_init s) = Some cs) \<and>
   (memory_file s = None \<and> conversations_file s = None \<longrightarrow>
      SimpleMemory_init s =
        \<lparr>dir_exists = True, memory_file = Some [], conversations_file = Some []\<rparr> \<and>
      SimpleMemory_init (SimpleMemory_init s) =
        \<lparr>dir_exists = True, memory_file = Some [], conversations_file = Some []\<rparr>)"
proof -
  have idem: "SimpleMemory_init (SimpleMemory_init s) = SimpleMemory_init s"
    by (rule storage_eqI) (simp_all add: SimpleMemory_init_fields split: option.splits)
  have empty: "SimpleMemory_init s =
        \<lparr>dir_exists = True, memory_file = Some [], conversations_file = Some []\<rparr>"
    if "memory_file s = None" "conversations_file s = None"
    by (rule storage_eqI) (simp_all add: SimpleMemory_init_fields that)
  show ?thesis
    using idem empty by (simp add: SimpleMemory_init_fields)
qed

theorem initialize_idempotent_witness:
  "memory_file empty_location = None \<and> conversations_file empty_location = None \<and>
   memory_file store3 = Some memories3 \<and> conversations_file store3 = Some conversations1 \<and>
   SimpleMemory_init (SimpleMemory_init empty_location) = SimpleMemory_init empty_location \<and>
   SimpleMemory_init empty_location =
     \<lparr>dir_exists = True, memory_file = Some [], conversations_file = Some []\<rparr> \<and>
   memory_file (SimpleMemory_init store3) = Some memories3 \<and>
   conversations_file (SimpleMemory_init store3) = Some conversations1"
proof -
  have e: "memory_file empty_location = None" "conversations_file empty_location = None"
    by (simp_all add: empty_location_def)
  have f: "memory_file store3 = Some memories3" "conversations_file store3 = Some conversations1"
    by (simp_all add: store3_def)
  from e f initialize_idempotent [of empty_location "[]" "[]"]
    initialize_idempotent [of store3 memories3 conversations1]
  show ?thesis by blast
qed

text \<open>
  Claim C10. \<open>add_memory\<close> changes only the memories collection and
  \<open>add_conversation\<close> only the conversations collection; the other collection and
  the directory stay as they were, and the changed collection is the old one with one
  record added at its end.
\<close>

theorem append_frame:
  "(memory_file s = Some ms \<longrightarrow>
      (\<exists>i s'. add_memory memory_text user_id timestamp now s = Inr (i, s') \<and>
         memory_file s' =
           Some (ms @ [\<lparr>mem_user_id = user_id, mem_memory = memory_text,
                        mem_timestamp = (case timestamp of None \<Rightarrow> now | Some t \<Rightarrow> t)\<rparr>]) \<and>
         conversations_file s' = conversations_file s \<and> dir_exists s' = dir_exists s)) \<and>
   (conversations_file s = Some cs \<longrightarrow>
      (\<exists>j s'. add_conversation messages user_id timestamp now s = Inr (j, s') \<and>
         conversations_file s' =
           Some (cs @ [\<lparr>conv_user_id = user_id,
                        conv_timestamp = (case timestamp of None \<Rightarrow> now | Some t \<Rightarrow> t),
                        conv_messages = messages\<rparr>]) \<and>
         memory_file s' = memory_file s \<and> dir_exists s' = dir_exists s))"
  by (simp add: add_memory_Some add_conversation_Some)

theorem append_frame_witness:
  "memory_file store3 = Some memories3 \<and> conversations_file store3 = Some conversations1 \<and>
   (\<exists>i s'. add_memory ''John likes tea'' ''john'' (Some ''t5'') ''t6'' store3 = Inr (i, s') \<and>
      memory_file s' = Some (memories3 @ [\<lparr>mem_user_id = ''john'',
        mem_memory = ''John likes tea'', mem_timestamp = ''t5''\<rparr>]) \<and>
      conversations_file s' = Some conversations1) \<and>
   (\<exists>j s'. add_conversation (JArray [message ''user'' ''Hi'']) ''john'' (Some ''t5'') ''t6''
        store3 = Inr (j, s') \<and>
      conversations_file s' = Some (conversations1 @ [\<lparr>conv_user_id = ''john'',
        conv_timestamp = ''t5'', conv_messages = JArray [message ''user'' ''Hi'']\<rparr>]) \<and>
      memory_file s' = Some memories3)"
proof -
  have m: "memory_file store3 = Some memories3"
    and c: "conversations_file store3 = Some conversations1"
    by (simp_all add: store3_def)
  with append_frame [of store3 memories3 "''John likes tea''" "''john''" "Some ''t5''" "''t6''"
      conversations1 "(JArray [message ''user'' ''Hi''])"]
  show ?thesis by auto
qed




lemma slice_from_Nil: "slice_from [] start = []"
  by (simp add: slice_from_def)

lemma slice_from_subseq: "subseq (slice_from xs start) xs"
  by (simp add: slice_from_def suffix_imp_subseq suffix_drop)

lemma slice_from_set: "set (slice_from xs start) \<subseteq> set xs"
  by (auto simp: slice_from_def dest: in_set_dropD)

lemma get_memories_Some:
  "memory_file s = Some ms \<Longrightarrow>
   get_memories user_id s = Inr (filter (\<lambda>mem. mem_user_id mem = user_id) ms)"
  by (simp add: get_memories_def)

lemma get_conversations_Some:
  "conversations_file s = Some cs \<Longrightarrow>
   get_conversations user_id limit s =
     Inr (slice_from (filter (\<lambda>conv. conv_user_id conv = user_id) cs) (- limit))"
  by (simp add: get_conversations_def Let_def slice_from_Nil)

text \<open>
  Claim C5. Users are isolated: for distinct user ids \<open>a\<close> and \<open>b\<close>, a memory or a
  conversation appended under \<open>a\<close> changes nothing in what \<open>get_memories b\<close> and
  \<open>get_conversations b limit\<close> return, every record these return carries the user id
  \<open>b\<close> (so none written under \<open>a\<close> is among them), and the records returned stand in
  the order they have in the whole collection.
\<close>

theorem user_isolation:
  assumes "a \<noteq> b" and "memory_file s = Some ms" and "conversations_file s = Some cs"
  shows "\<exists>i s1 j s2 rs qs.
     add_memory memory_text a timestamp now s = Inr (i, s1) \<and>
     get_memories b s1 = get_memories b s \<and>
     add_conversation messages a timestamp now s = Inr (j, s2) \<and>
     get_conversations b limit s2 = get_conversations b limit s \<and>
     get_memories b s = Inr rs \<and> (\<forall>r \<in> set rs. mem_user_id r = b \<and> mem_user_id r \<noteq> a) \<and>
     subseq rs ms \<and> rs = filter (\<lambda>m. mem_user_id m = b) ms \<and>
     get_conversations b limit s = Inr qs \<and>
     (\<forall>q \<in> set qs. conv_user_id q = b \<and> conv_user_id q \<noteq> a) \<and> subseq qs cs"
proof -
  let ?rs = "filter (\<lambda>m. mem_user_id m = b) ms"
  let ?us = "filter (\<lambda>c. conv_user_id c = b) cs"
  let ?qs = "slice_from ?us (- limit)"
  let ?t = "case timestamp of None \<Rightarrow> now | Some t \<Rightarrow> t"
  let ?s1 = "s\<lparr>memory_file := Some (ms @ [\<lparr>mem_user_id = a, mem_memory = memory_text,
                mem_timestamp = ?t\<rparr>])\<rparr>"
  let ?s2 = "s\<lparr>conversations_file := Some (cs @ [\<lparr>conv_user_id = a,
                conv_timestamp = ?t, conv_messages = messages\<rparr>])\<rparr>"
  have a1: "add_memory memory_text a timestamp now s = Inr (length ms, ?s1)"
    using assms(2) by (rule add_memory_Some)
  have a2: "add_conversation messages a timestamp now s = Inr (length cs, ?s2)"
    using assms(3) by (rule add_conversation_Some)
  have m1: "get_memories b s = Inr ?rs"
    using assms(2) by (rule get_memories_Some)
  have c1: "get_conversations b limit s = Inr ?qs"
    using assms(3) by (rule get_conversations_Some)
  have "get_memories b ?s1 = Inr ?rs"
    using assms(1) by (simp add: get_memories_def)
  with m1 have m2: "get_memories b ?s1 = get_memories b s"
    by simp
  have "get_conversations b limit ?s2 = Inr ?qs"
    using assms(1) by (simp add: get_conversations_def Let_def slice_from_Nil)
  with c1 have c2: "get_conversations b limit ?s2 = get_conversations b limit s"
    by simp
  have r: "\<forall>r \<in> set ?rs. mem_user_id r = b \<and> mem_user_id r \<noteq> a"
    using assms(1) by auto
  have q: "\<forall>q \<in> set ?qs. conv_user_id q = b \<and> conv_user_id q \<noteq> a"
    using assms(1) slice_from_set [of ?us "- limit"] by auto
  have sr: "subseq ?rs ms"
    by (rule subseq_filter_left)
  have sq: "subseq ?qs cs"
    using slice_from_subseq [of ?us "- limit"] subseq_filter_left [of _ cs]
    by (rule subseq_order.trans)
  show ?thesis
    by (intro exI conjI) (rule a1, rule m2, rule a2, rule c2, rule m1, rule r, rule sr,
        rule refl, rule c1, rule q, rule sq)
qed

theorem user_isolation_witness:
  "''john'' \<noteq> ''mary'' \<and> memory_file store3 = Some memories3 \<and>
   conversations_file store3 = Some conversations1 \<and>
   (\<exists>i s1 j s2 rs qs.
     add_memory ''John likes tea'' ''john'' None ''t5'' store3 = Inr (i, s1) \<and>
     get_memories ''mary'' s1 = get_memories ''mary'' store3 \<and>
     add_conversation (JArray []) ''john'' None ''t5'' store3 = Inr (j, s2) \<and>
     get_conversations ''mary'' 10 s2 = get_conversations ''mary'' 10 store3 \<and>
     get_memories ''mary'' store3 = Inr rs \<and>
     (\<forall>r \<in> set rs. mem_user_id r = ''mary'' \<and> mem_user_id r \<noteq> ''john'') \<and>
     subseq rs memories3 \<and> rs = filter (\<lambda>m. mem_user_id m = ''mary'') memories3 \<and>
     get_conversations ''mary'' 10 store3 = Inr qs \<and>
     (\<forall>q \<in> set qs. conv_user_id q = ''mary'' \<and> conv_user_id q \<noteq> ''john'') \<and>
     subseq qs conversations1)"
proof -
  have n: "''john'' \<noteq> ''mary''" by simp
  have f: "memory_file store3 = Some memories3" "conversations_file store3 = Some conversations1"
    by (simp_all add: store3_def)
  note t = user_isolation [OF n f, of "''John likes tea''" None "''t5''" "JArray []" 10]
  show ?thesis
    by (intro conjI) (rule n, rule f(1), rule f(2), rule t)
qed

text \<open>
  Claim C3 at limit 0. The slice \<^verbatim>\<open>user_conversations[-limit:]\<close> is the whole list when
  \<open>limit\<close> is 0, so the user's conversations are all returned where none should be.
\<close>

theorem get_conversations_limit_zero:
  "get_conversations ''mary'' 0 store3 =
     Inr [\<lparr>conv_user_id = ''mary'', conv_timestamp = ''t0'',
           conv_messages = JArray [message ''user'' ''Hello'']\<rparr>]"
  by (simp add: get_conversations_def store3_def conversations1_def slice_from_def)

text \<open>
  For a positive limit the result is the tail slice that the claim describes: the last
  \<open>limit\<close> of the user's conversations in insertion order, all of them when there are
  fewer, and never more than \<open>limit\<close>.
\<close>

lemma get_conversations_positive_limit:
  assumes "conversations_file s = Some cs" and "0 < limit"
  shows "get_conversations user_id limit s =
           Inr (drop (length (filter (\<lambda>c. conv_user_id c = user_id) cs) - nat limit)
                  (filter (\<lambda>c. conv_user_id c = user_id) cs))"
proof -
  have "nat (int n - limit) = n - nat limit" for n :: nat
    using assms(2) by simp
  then show ?thesis
    using assms by (simp add: get_conversations_Some slice_from_def)
qed

section \<open>Properties of the prompt and of the generation step\<close>

lemma context_loop_closed:
  "context_loop i mems ctx =
     ctx @ concat (map (\<lambda>(k, mem). str_nat k @ ''. '' @ sm_memory mem @ ''\<newline>'')
                     (zip [i ..< i + length mems] mems))"
proof (induction mems arbitrary: i ctx)
  case Nil
  then show ?case by simp
next
  case (Cons mem rest)
  have "[i ..< i + length (mem # rest)] = i # [Suc i ..< Suc i + length rest]"
    by (simp add: upt_rec)
  then show ?case
    by (simp add: Cons.IH)
qed

lemma str_nat_1: "str_nat (Suc 0) = ''1''"
  by code_simp

lemma str_nat_2: "str_nat 2 = ''2''" "str_nat (Suc (Suc 0)) = ''2''"
  by code_simp+

lemma numbered_lines_2:
  "numbered_lines [m1, m2] =
     ''1. '' @ sm_memory m1 @ ''\<newline>'' @ ''2. '' @ sm_memory m2 @ ''\<newline>''"
proof -
  have "[1 ..< Suc (length [m1, m2])] = [1, 2]"
    by (simp add: upt_rec)
  then show ?thesis
    by (simp add: numbered_lines_def str_nat_1 str_nat_2)
qed

lemma prompt_nonempty:
  "relevant_memories \<noteq> [] \<Longrightarrow>
   create_memory_enhanced_prompt user_query relevant_memories =
     prompt_intro @ context_heading @ numbered_lines relevant_memories @
     ''\<newline>\<newline>USER QUERY: '' @ user_query @ prompt_outro"
  by (simp add: create_memory_enhanced_prompt_def context_loop_closed numbered_lines_def
      prompt_intro_def context_heading_def prompt_outro_def)

text \<open>
  Claim C4. With no memories the prompt is the query itself, unchanged.
\<close>

theorem prompt_without_memories: "create_memory_enhanced_prompt user_query [] = user_query"
  by (simp add: create_memory_enhanced_prompt_def)

text \<open>
  Claim C9. With at least one memory the prompt is the fixed introduction, the context
  heading, then every memory text verbatim on a line of its own, numbered from 1 in the
  order of the list given, then the query verbatim and the fixed closing words. For a
  list of two, the line of the first memory stands before the line of the second.
\<close>

theorem prompt_lists_memories_in_order:
  "(relevant_memories \<noteq> [] \<longrightarrow>
      create_memory_enhanced_prompt user_query relevant_memories =
        prompt_intro @ context_heading @
        concat (map (\<lambda>(k, mem). str_nat k @ ''. '' @ sm_memory mem @ ''\<newline>'')
                  (zip [1 ..< Suc (length relevant_memories)] relevant_memories)) @
        ''\<newline>\<newline>USER QUERY: '' @ user_query @ prompt_outro) \<and>
   create_memory_enhanced_prompt user_query [m1, m2] =
     prompt_intro @ context_heading @
     ''1. '' @ sm_memory m1 @ ''\<newline>'' @ ''2. '' @ sm_memory m2 @ ''\<newline>'' @
     ''\<newline>\<newline>USER QUERY: '' @ user_query @ prompt_outro"
proof
  show "relevant_memories \<noteq> [] \<longrightarrow>
      create_memory_enhanced_prompt user_query relevant_memories =
        prompt_intro @ context_heading @
        concat (map (\<lambda>(k, mem). str_nat k @ ''. '' @ sm_memory mem @ ''\<newline>'')
                  (zip [1 ..< Suc (length relevant_memories)] relevant_memories)) @
        ''\<newline>\<newline>USER QUERY: '' @ user_query @ prompt_outro"
    using prompt_nonempty [of relevant_memories user_query]
    by (simp add: numbered_lines_def)
next
  have "create_memory_enhanced_prompt user_query [m1, m2] =
     prompt_intro @ context_heading @ numbered_lines [m1, m2] @
     ''\<newline>\<newline>USER QUERY: '' @ user_query @ prompt_outro"
    by (rule prompt_nonempty) simp
  then show "create_memory_enhanced_prompt user_query [m1, m2] =
     prompt_intro @ context_heading @
     ''1. '' @ sm_memory m1 @ ''\<newline>'' @ ''2. '' @ sm_memory m2 @ ''\<newline>'' @
     ''\<newline>\<newline>USER QUERY: '' @ user_query @ prompt_outro"
    by (simp only: numbered_lines_2 append_assoc)
qed

theorem prompt_lists_memories_in_order_witness:
  "ranked2 \<noteq> [] \<and>
   create_memory_enhanced_prompt ''What should I present?'' ranked2 =
     prompt_intro @ context_heading @
     ''1. John works in AI\<newline>2. John loves hiking\<newline>'' @
     ''\<newline>\<newline>USER QUERY: What should I present?'' @ prompt_outro"
proof -
  have n: "ranked2 \<noteq> []"
    by (simp add: ranked2_def)
  have z: "zip [1 ..< Suc (length ranked2)] ranked2 =
      [(1, \<lparr>sm_memory = ''John works in AI'', sm_score = 3, sm_timestamp = ''t3''\<rparr>),
       (2, \<lparr>sm_memory = ''John loves hiking'', sm_score = 1, sm_timestamp = ''t1''\<rparr>)]"
    by (simp add: ranked2_def upt_rec)
  from n prompt_lists_memories_in_order [of ranked2 "''What should I present?''"]
  have "create_memory_enhanced_prompt ''What should I present?'' ranked2 =
        prompt_intro @ context_heading @
        concat (map (\<lambda>(k, mem). str_nat k @ ''. '' @ sm_memory mem @ ''\<newline>'')
                  (zip [1 ..< Suc (length ranked2)] ranked2)) @
        ''\<newline>\<newline>USER QUERY: '' @ ''What should I present?'' @ prompt_outro"
    by blast
  with n show ?thesis
    unfolding z by (simp add: str_nat_1 str_nat_2)
qed




section \<open>Properties of the search\<close>

lemma str_in_sublist: "str_in keyword hay = sublist keyword hay"
  by (induction hay) (auto simp: sublist_Cons_right)

lemma keyword_score_spec:
  "keyword_score (str_split (str_lower query)) (str_lower memory_text) =
     spec_score query memory_text"
  by (simp add: keyword_score_def spec_score_def str_in_sublist)

lemma relevant_loop_closed:
  "relevant_loop (str_split (str_lower query)) mems acc = acc @ spec_survivors query mems"
proof (induction mems arbitrary: acc)
  case Nil
  then show ?case by (simp add: spec_survivors_def)
next
  case (Cons m rest)
  then show ?case
    by (simp add: spec_survivors_def keyword_score_spec Let_def)
qed

lemma sort_reverse_descending:
  "sorted_wrt (\<lambda>x y. key y \<le> key x) (sort_reverse key xs)"
proof -
  have "sorted (map key (sort_key key (rev xs)))"
    by (rule sorted_sort_key)
  then show ?thesis
    by (simp add: sort_reverse_def sorted_wrt_rev sorted_wrt_map)
qed

lemma sort_reverse_stable:
  "filter (\<lambda>x. key x = k) (sort_reverse key xs) = filter (\<lambda>x. key x = k) xs"
  by (simp add: sort_reverse_def rev_filter [symmetric] sort_key_stable)

lemma slice_to_take: "0 \<le> stop \<Longrightarrow> slice_to xs stop = take (nat stop) xs"
  by (simp add: slice_to_def)

text \<open>
  A list sorted by descending key is determined by its classes of equal key, so the two
  properties stated of the ranking below leave no choice of the ranked list.
\<close>

lemma descending_classes_unique:
  fixes key :: "'a \<Rightarrow> 'k::linorder"
  assumes "sorted_wrt (\<lambda>x y. key y \<le> key x) xs"
    and "sorted_wrt (\<lambda>x y. key y \<le> key x) ys"
    and "\<And>k. filter (\<lambda>x. key x = k) xs = filter (\<lambda>x. key x = k) ys"
  shows "xs = ys"
  using assms
proof (induction xs arbitrary: ys)
  case Nil
  show ?case
  proof (cases ys)
    case Nil
    then show ?thesis by simp
  next
    case (Cons y ys')
    with Nil.prems(3) [of "key y"] show ?thesis by simp
  qed
next
  case (Cons x xs')
  have "x \<in> set (filter (\<lambda>z. key z = key x) (x # xs'))"
    by simp
  then have "x \<in> set (filter (\<lambda>z. key z = key x) ys)"
    unfolding Cons.prems(3) [of "key x"] .
  then have xin: "x \<in> set ys"
    by simp
  then obtain y ys' where ys: "ys = y # ys'"
    by (cases ys) auto
  have "y \<in> set (filter (\<lambda>z. key z = key y) ys)"
    using ys by simp
  then have "y \<in> set (filter (\<lambda>z. key z = key y) (x # xs'))"
    unfolding Cons.prems(3) [of "key y"] .
  then have yin: "y \<in> set (x # xs')"
    by (simp del: filter.simps)
  have "key x \<le> key y"
    using xin ys Cons.prems(2) by auto
  moreover have "key y \<le> key x"
    using yin Cons.prems(1) by auto
  ultimately have k: "key y = key x" by simp
  with Cons.prems(3) [of "key x"] ys have xy: "x = y" by simp
  have "filter (\<lambda>z. key z = k) xs' = filter (\<lambda>z. key z = k) ys'" for k
    using Cons.prems(3) [of k] ys xy by (simp split: if_splits)
  with Cons.IH [of ys'] Cons.prems(1,2) ys have "xs' = ys'"
    by simp
  with xy ys show ?case by simp
qed

lemma split_run_tokens:
  "(\<forall>c \<in> set cur. \<not> isspace c) \<Longrightarrow> t \<in> set (split_run s cur) \<Longrightarrow>
   t \<noteq> [] \<and> (\<forall>c \<in> set t. \<not> isspace c)"
proof (induction s cur rule: split_run.induct)
  case (1 cur)
  then show ?case
    by (cases "cur = []") simp_all
next
  case (2 c cs cur)
  show ?case
  proof (cases "isspace c")
    case space: True
    show ?thesis
    proof (cases "cur = []")
      case True
      with space "2.prems" have "t \<in> set (split_run cs [])"
        by simp
      with "2.IH"(1) [OF space True] show ?thesis
        by simp
    next
      case False
      with space "2.prems" have "t = cur \<or> t \<in> set (split_run cs [])"
        by simp
      then show ?thesis
      proof
        assume "t = cur"
        with False "2.prems"(1) show ?thesis
          by simp
      next
        assume "t \<in> set (split_run cs [])"
        with "2.IH"(2) [OF space False] show ?thesis
          by simp
      qed
    qed
  next
    case False
    with "2.prems" have "t \<in> set (split_run cs (cur @ [c]))"
      and "\<forall>d \<in> set (cur @ [c]). \<not> isspace d"
      by simp_all
    with "2.IH"(3) [OF False] show ?thesis
      by blast
  qed
qed

lemma str_split_tokens:
  "t \<in> set (str_split s) \<Longrightarrow> t \<noteq> [] \<and> (\<forall>c \<in> set t. \<not> isspace c)"
  unfolding str_split_def by (rule split_run_tokens) simp_all

lemma split_run_concat:
  "concat (split_run s cur) = cur @ filter (\<lambda>c. \<not> isspace c) s"
  by (induction s cur rule: split_run.induct) auto

lemma split_run_separator:
  "isspace sp \<Longrightarrow> split_run (a @ sp # b) cur = split_run a cur @ split_run b []"
  by (induction a cur rule: split_run.induct) auto

lemma split_run_word:
  "\<forall>c \<in> set t. \<not> isspace c \<Longrightarrow> cur @ t \<noteq> [] \<Longrightarrow> split_run t cur = [cur @ t]"
  by (induction t cur rule: split_run.induct) auto

lemma str_split_separator:
  "isspace sp \<Longrightarrow> str_split (a @ sp # b) = str_split a @ str_split b"
  by (simp add: str_split_def split_run_separator)

lemma str_split_word:
  "\<forall>c \<in> set t. \<not> isspace c \<Longrightarrow> t \<noteq> [] \<Longrightarrow> str_split t = [t]"
  by (simp add: str_split_def split_run_word)

text \<open>
  Two further runs of the search on the same store: a token repeated in the query counts
  each time, records of equal score keep their stored order, and the bound cuts the
  ranked list.
\<close>

lemma search_example_ties:
  "search_relevant_memories ''JOHN john hot'' ''john'' 5 store3 =
     Inr [\<lparr>sm_memory = ''John loves hiking'', sm_score = 2, sm_timestamp = ''t1''\<rparr>,
          \<lparr>sm_memory = ''John works in AI'', sm_score = 2, sm_timestamp = ''t3''\<rparr>,
          \<lparr>sm_memory = ''The weather is hot'', sm_score = 1, sm_timestamp = ''t4''\<rparr>]"
  by code_simp

lemma search_example_limit:
  "search_relevant_memories ''JOHN john hot'' ''john'' 1 store3 =
     Inr [\<lparr>sm_memory = ''John loves hiking'', sm_score = 2, sm_timestamp = ''t1''\<rparr>]"
  "search_relevant_memories ''JOHN john hot'' ''john'' 0 store3 = Inr []"
  by code_simp+

text \<open>
  Claim C1. For every query and every stored list of memories, the search gives the
  first \<open>limit\<close> entries of a ranked list with these properties: it is sorted by
  descending score, and for every score its entries of that score are, in the same
  order, the user's memories whose count of query tokens (the lower-cased query split
  on white space, repetitions counted) occurring as substrings of the lower-cased text
  is that score and is not zero, each carrying its text, that count and its timestamp.
\<close>

theorem search_ranks_by_keyword_count:
  assumes "memory_file s = Some all_memories" and "0 \<le> limit"
  shows "\<exists>ranked.
     search_relevant_memories query user_id limit s = Inr (take (nat limit) ranked) \<and>
     sorted_wrt (\<lambda>x y. sm_score y \<le> sm_score x) ranked \<and>
     (\<forall>k. filter (\<lambda>x. sm_score x = k) ranked =
          filter (\<lambda>x. sm_score x = k)
            (spec_survivors query (filter (\<lambda>m. mem_user_id m = user_id) all_memories)))"
proof -
  let ?mine = "filter (\<lambda>m. mem_user_id m = user_id) all_memories"
  let ?ranked = "sort_reverse sm_score (spec_survivors query ?mine)"
  have "relevant_loop (str_split (str_lower query)) ?mine [] = spec_survivors query ?mine"
    by (simp add: relevant_loop_closed)
  then have "search_relevant_memories query user_id limit s = Inr (slice_to ?ranked limit)"
    using assms(1) by (simp add: search_relevant_memories_def get_memories_def)
  then have r: "search_relevant_memories query user_id limit s = Inr (take (nat limit) ?ranked)"
    using assms(2) by (simp add: slice_to_take)
  have d: "sorted_wrt (\<lambda>x y. sm_score y \<le> sm_score x) ?ranked"
    by (rule sort_reverse_descending)
  have st: "\<forall>k. filter (\<lambda>x. sm_score x = k) ?ranked =
      filter (\<lambda>x. sm_score x = k) (spec_survivors query ?mine)"
    by (simp add: sort_reverse_stable)
  show ?thesis
    by (intro exI conjI) (rule r, rule d, rule st)
qed

theorem search_ranks_by_keyword_count_witness:
  "memory_file store3 = Some memories3 \<and> (0::int) \<le> 5 \<and>
   map mem_memory (filter (\<lambda>m. mem_user_id m = ''john'') memories3) =
     [''John loves hiking'', ''John works in AI'', ''The weather is hot''] \<and>
   search_relevant_memories ''ai work'' ''john'' 5 store3 =
     Inr [\<lparr>sm_memory = ''John works in AI'', sm_score = 2, sm_timestamp = ''t3''\<rparr>] \<and>
   (\<exists>ranked.
     search_relevant_memories ''ai work'' ''john'' 5 store3 = Inr (take (nat 5) ranked) \<and>
     sorted_wrt (\<lambda>x y. sm_score y \<le> sm_score x) ranked \<and>
     (\<forall>k. filter (\<lambda>x. sm_score x = k) ranked =
          filter (\<lambda>x. sm_score x = k)
            (spec_survivors ''ai work'' (filter (\<lambda>m. mem_user_id m = ''john'') memories3))))"
proof -
  have f: "memory_file store3 = Some memories3"
    by (simp add: store3_def)
  have h: "(0::int) \<le> 5"
    by simp
  have j: "map mem_memory (filter (\<lambda>m. mem_user_id m = ''john'') memories3) =
     [''John loves hiking'', ''John works in AI'', ''The weather is hot'']"
    by (simp add: memories3_def)
  have e: "search_relevant_memories ''ai work'' ''john'' 5 store3 =
     Inr [\<lparr>sm_memory = ''John works in AI'', sm_score = 2, sm_timestamp = ''t3''\<rparr>]"
    by code_simp
  note t = search_ranks_by_keyword_count [OF f h, of "''ai work''" "''john''"]
  show ?thesis
    by (intro conjI) (rule f, rule h, rule j, rule e, rule t)
qed

end
